theory Spec2Isabelle
  imports Main
begin

section \<open>Python strings\<close>

text \<open>
  A Python \<open>str\<close> is a sequence of Unicode code points; \<open>len\<close>, \<open>count\<close>, iteration and
  the character tests of \<open>main.py\<close> all work on code points. A character is modelled by
  its code point, a string by the list of its code points.
\<close>

type_synonym uchar = nat
type_synonym pystr = "uchar list"

definition py_str :: "string \<Rightarrow> pystr" where
  \<comment> \<open>An ASCII literal of the source, as the list of its code points.\<close>
  "py_str s = map of_char s"

text \<open>
  \<open>str.isalnum\<close>, the white space that \<open>str.strip\<close> and \<open>str.split\<close> remove, and
  \<open>str.lower\<close> are built into the interpreter and read the Unicode character database.
  On ASCII they are fixed and written out below. Beyond ASCII they read the database that
  ships with the interpreter, which is not part of the repository: the general category
  and the numeric type of a code point, its white space property and the case mapping
  are a parameter of the model.
\<close>

datatype general_category =
    Lu | Ll | Lt | Lm | Lo | Mn | Mc | Me | Nd | Nl | No
  | Pc | Pd | Ps | Pe | Pi | Pf | Po | Sm | Sc | Sk | So
  | Zs | Zl | Zp | Cc | Cf | Cs | Co | Cn

datatype numeric_type = Decimal | Digit | Numeric

record unicode_tables =
  general_category :: "uchar \<Rightarrow> general_category"
  numeric_type :: "uchar \<Rightarrow> numeric_type option"
  isspace_ext :: "uchar \<Rightarrow> bool"
  lower_ext :: "pystr \<Rightarrow> pystr"

text \<open>
  \<open>c.isalnum()\<close> holds when one of \<open>c.isalpha()\<close>, \<open>c.isdecimal()\<close>, \<open>c.isdigit()\<close>,
  \<open>c.isnumeric()\<close> does. A character is alphabetic when its general category is a letter
  category, decimal when its category is \<open>Nd\<close>, a digit when its numeric type is digit or
  decimal, and numeric when it has a numeric type.
\<close>

definition isalpha :: "unicode_tables \<Rightarrow> uchar \<Rightarrow> bool" where
  "isalpha U c =
     (if c < 128 then (65 \<le> c \<and> c \<le> 90) \<or> (97 \<le> c \<and> c \<le> 122)
      else general_category U c \<in> {Lu, Ll, Lt, Lm, Lo})"

definition isdecimal :: "unicode_tables \<Rightarrow> uchar \<Rightarrow> bool" where
  "isdecimal U c =
     (if c < 128 then 48 \<le> c \<and> c \<le> 57 else general_category U c = Nd)"

definition isdigit :: "unicode_tables \<Rightarrow> uchar \<Rightarrow> bool" where
  "isdigit U c =
     (if c < 128 then 48 \<le> c \<and> c \<le> 57
      else numeric_type U c = Some Digit \<or> numeric_type U c = Some Decimal)"

definition isnumeric :: "unicode_tables \<Rightarrow> uchar \<Rightarrow> bool" where
  "isnumeric U c =
     (if c < 128 then 48 \<le> c \<and> c \<le> 57 else numeric_type U c \<noteq> None)"

definition isalnum :: "unicode_tables \<Rightarrow> uchar \<Rightarrow> bool" where
  "isalnum U c = (isalpha U c \<or> isdecimal U c \<or> isdigit U c \<or> isnumeric U c)"

definition isspace :: "unicode_tables \<Rightarrow> uchar \<Rightarrow> bool" where
  \<comment> \<open>ASCII white space of \<open>str\<close>: tab, line feed, VT, FF, CR, FS, GS, RS, US, space.\<close>
  "isspace U c =
     (if c < 128 then (9 \<le> c \<and> c \<le> 13) \<or> (28 \<le> c \<and> c \<le> 32)
      else isspace_ext U c)"

definition str_lower :: "unicode_tables \<Rightarrow> pystr \<Rightarrow> pystr" where
  \<comment> \<open>\<open>s.lower()\<close>: an all-ASCII string is lowered character by character; any other
      string goes through the interpreter's full case mapping.\<close>
  "str_lower U s =
     (if list_all (\<lambda>c. c < 128) s
      then map (\<lambda>c. if 65 \<le> c \<and> c \<le> 90 then c + 32 else c) s
      else lower_ext U s)"

definition str_strip :: "unicode_tables \<Rightarrow> pystr \<Rightarrow> pystr" where
  \<comment> \<open>\<open>s.strip()\<close>: leading and trailing white space removed.\<close>
  "str_strip U s = rev (dropWhile (isspace U) (rev (dropWhile (isspace U) s)))"

primrec split_scan :: "unicode_tables \<Rightarrow> pystr \<Rightarrow> pystr \<Rightarrow> pystr list" where
  \<comment> \<open>The scan of \<open>s.split()\<close>: \<open>cur\<close> is the word being read; white space ends it, and
      runs of white space produce no empty word.\<close>
  "split_scan U [] cur = (if cur = [] then [] else [cur])"
| "split_scan U (c # cs) cur =
     (if isspace U c
      then (if cur = [] then split_scan U cs [] else cur # split_scan U cs [])
      else split_scan U cs (cur @ [c]))"

definition str_split :: "unicode_tables \<Rightarrow> pystr \<Rightarrow> pystr list" where
  \<comment> \<open>\<open>s.split()\<close> with no argument.\<close>
  "str_split U s = split_scan U s []"

definition str_count :: "pystr \<Rightarrow> uchar \<Rightarrow> nat" where
  \<comment> \<open>\<open>s.count(c)\<close> for a one-character string \<open>c\<close>.\<close>
  "str_count s c = length (filter (\<lambda>d. d = c) s)"

section \<open>Python's comparison of an int with an int times a float literal\<close>

text \<open>
  \<open>len(text) * 0.3\<close> is a product of IEEE 754 doubles: the int is converted to the
  nearest double, the literal \<open>0.3\<close> is the double nearest to 3/10, and the product is
  rounded to 53 significant bits, ties to even. \<open>k > x\<close> for an int \<open>k\<close> and a double
  \<open>x\<close> compares the two exact values.

  The literals of the source are multiples of \<open>2^-54\<close>:
  \<open>0.3 = 5404319552844595 / 2^54\<close> and \<open>0.2 = 3602879701896397 / 2^54\<close>. A non-negative
  double that is a multiple of \<open>2^-54\<close> is represented by its numerator over \<open>2^54\<close>;
  rounding a multiple of \<open>2^-54\<close> to 53 bits gives one again. Lengths are far from the
  overflow and underflow ranges of a double, so the exponent is unbounded here.
\<close>

fun bit_length :: "nat \<Rightarrow> nat" where
  \<comment> \<open>\<open>int.bit_length\<close>: the number of binary digits.\<close>
  "bit_length n = (if n = 0 then 0 else Suc (bit_length (n div 2)))"

declare bit_length.simps [simp del]

definition round53 :: "nat \<Rightarrow> nat" where
  \<comment> \<open>Round to 53 significant bits, to nearest, ties to the even significand.\<close>
  "round53 a =
     (let L = bit_length a in
      if L \<le> 53 then a
      else
        let s = L - 53; q = a div 2 ^ s; r = a mod 2 ^ s; h = 2 ^ (s - 1) in
        if h < r \<or> (r = h \<and> odd q) then (q + 1) * 2 ^ s else q * 2 ^ s)"

definition literal_0_3 :: nat where
  \<comment> \<open>The double written \<open>0.3\<close>, over \<open>2^54\<close> (\<open>0x1.3333333333333p-2\<close>).\<close>
  "literal_0_3 = 5404319552844595"

definition literal_0_2 :: nat where
  \<comment> \<open>The double written \<open>0.2\<close>, over \<open>2^54\<close> (\<open>0x1.999999999999ap-3\<close>).\<close>
  "literal_0_2 = 3602879701896397"

definition int_times_float :: "nat \<Rightarrow> nat \<Rightarrow> nat" where
  \<comment> \<open>\<open>n * x\<close>, over \<open>2^54\<close>: \<open>n\<close> converted to a double, then the rounded product.\<close>
  "int_times_float n x = round53 (round53 n * x)"

definition int_gt_float :: "nat \<Rightarrow> nat \<Rightarrow> bool" where
  \<comment> \<open>\<open>k > x\<close> for an int \<open>k\<close> and a double \<open>x\<close> given over \<open>2^54\<close>: exact.\<close>
  "int_gt_float k x = (x < k * 2 ^ 54)"

section \<open>The legitimacy check of \<open>main.py\<close>\<close>

definition permitted_punctuation :: pystr where
  \<comment> \<open>The string literal of the symbol check: space, \<open>. , ! ? ; :\<close>, apostrophe, double
      quote, em dash (U+2014), en dash (U+2013), hyphen.\<close>
  "permitted_punctuation = [32, 46, 44, 33, 63, 59, 58, 39, 34, 8212, 8211, 45]"

primrec repeated_char :: "pystr \<Rightarrow> pystr \<Rightarrow> bool" where
  \<comment> \<open>The loop \<open>for char in text\<close>, over the characters still to visit: True when it
      reaches a character that occurs more than \<open>len(text) * 0.3\<close> times.\<close>
  "repeated_char text [] = False"
| "repeated_char text (c # cs) =
     (if int_gt_float (str_count text c) (int_times_float (length text) literal_0_3)
      then True else repeated_char text cs)"

definition non_alpha :: "unicode_tables \<Rightarrow> pystr \<Rightarrow> nat" where
  "non_alpha U text =
     length (filter (\<lambda>c. \<not> isalnum U c \<and> c \<notin> set permitted_punctuation) text)"

definition vowels :: "unicode_tables \<Rightarrow> pystr \<Rightarrow> nat" where
  "vowels U word = length (filter (\<lambda>c. c \<in> set (py_str ''aeiou'')) (str_lower U word))"

primrec gibberish_loop :: "unicode_tables \<Rightarrow> pystr list \<Rightarrow> nat \<Rightarrow> nat" where
  \<comment> \<open>The loop \<open>for word in words\<close>, with the running \<open>gibberish_count\<close>.\<close>
  "gibberish_loop U [] gibberish_count = gibberish_count"
| "gibberish_loop U (word # ws) gibberish_count =
     gibberish_loop U ws
       (if 8 < length word \<and> vowels U word = 0 then gibberish_count + 1 else gibberish_count)"

definition is_legitimate_story :: "unicode_tables \<Rightarrow> pystr \<Rightarrow> bool" where
  "is_legitimate_story U text =
     (if length (str_strip U text) < 10 then False
      else if repeated_char text text then False
      else if int_gt_float (non_alpha U text) (int_times_float (length text) literal_0_2)
        then False
      else
        let words = str_split U text;
            gibberish_count = gibberish_loop U words 0
        in if int_gt_float gibberish_count (int_times_float (length words) literal_0_3)
           then False
           else True)"

section \<open>Requests, rows and HTTP errors\<close>

text \<open>
  \<open>StoryCreate\<close> (\<open>models.py\<close>) is the body of a submission. A row of the table
  \<open>stories\<close> (\<open>Story\<close> in \<open>database.py\<close>) has the same five columns and four more.
\<close>

type_synonym timestamp = nat

record StoryCreate =
  title :: "pystr option"
  author_name :: "pystr option"
  author_email :: "pystr option"
  story_text :: pystr
  category :: pystr

record Story = StoryCreate +
  story_id :: int
  approved :: bool
  created_at :: timestamp
  updated_at :: timestamp

datatype http_error = HTTPException nat string
  \<comment> \<open>\<open>status_code\<close> and \<open>detail\<close>\<close>

definition ALLOWED_CATEGORIES :: "pystr list" where
  "ALLOWED_CATEGORIES =
     map py_str [''Love'', ''Wisdom'', ''Regret'', ''Joy'', ''Pain'', ''Change'', ''Other'']"

section \<open>The table and the endpoints\<close>

text \<open>
  The table is the list of its rows, in insertion order. The engine is outside the
  repository; what the endpoints rely on is modelled as follows.
  \<^item> \<open>id\<close> is an integer primary key that the engine assigns at \<open>commit\<close>: SQLite, the
    default \<open>DATABASE_URL\<close>, takes one more than the largest key in the table.
  \<^item> \<open>datetime.utcnow\<close>, the default of both time columns, is the clock reading \<open>now\<close>
    given to the endpoint.
  \<^item> An attribute assignment on a loaded row followed by \<open>commit\<close> is an \<open>UPDATE\<close> of the
    rows with that primary key, \<open>db.delete\<close> a \<open>DELETE\<close> of them.
  \<^item> \<open>order_by(created_at.desc())\<close> leaves the order of rows with equal times to the
    engine; the model reverses a stable ascending sort.
  \<^item> \<open>random.choice\<close> draws an index below the length of its argument; the draw is
    the input \<open>r\<close>, reduced modulo that length.
  \<open>profanity.contains_profanity\<close> belongs to the library \<open>better_profanity\<close> and its word
  list; it is a parameter of \<open>create_story\<close>.
\<close>

type_synonym table = "Story list"

definition assign_id :: "table \<Rightarrow> int" where
  "assign_id db = fold max (map story_id db) 0 + 1"

definition order_by_created_at_desc :: "table \<Rightarrow> table" where
  "order_by_created_at_desc rows = rev (sort_key created_at rows)"

definition get_public_stories :: "pystr option \<Rightarrow> table \<Rightarrow> http_error + Story list" where
  "get_public_stories cat db =
     (let query = order_by_created_at_desc (filter approved db) in
      case cat of
        None \<Rightarrow> Inr query
      | Some c \<Rightarrow>
          if c = [] then Inr query
          else if c \<notin> set ALLOWED_CATEGORIES then Inl (HTTPException 400 ''Invalid category'')
          else Inr (filter (\<lambda>s. category s = c) query))"

definition get_random_story :: "nat \<Rightarrow> table \<Rightarrow> http_error + Story" where
  "get_random_story r db =
     (let stories = filter approved db in
      if stories = [] then Inl (HTTPException 404 ''No approved stories yet'')
      else Inr (stories ! (r mod length stories)))"

definition get_story :: "int \<Rightarrow> table \<Rightarrow> http_error + Story" where
  "get_story sid db =
     (case filter (\<lambda>s. story_id s = sid \<and> approved s) db of
        [] \<Rightarrow> Inl (HTTPException 404 ''Story not found'')
      | story # _ \<Rightarrow> Inr story)"

definition create_story ::
  "unicode_tables \<Rightarrow> (pystr \<Rightarrow> bool) \<Rightarrow> timestamp \<Rightarrow> StoryCreate \<Rightarrow> table
     \<Rightarrow> http_error + (table \<times> int \<times> string)" where
  \<comment> \<open>The result is the table after \<open>commit\<close> and the response, \<open>id\<close> and \<open>message\<close>.\<close>
  "create_story U contains_profanity now story db =
     (if category story \<notin> set ALLOWED_CATEGORIES
        then Inl (HTTPException 400 ''Invalid category'')
      else if contains_profanity (story_text story)
        then Inl (HTTPException 400
          ''Your story contains inappropriate language. Please revise and resubmit.'')
      else if \<not> is_legitimate_story U (story_text story)
        then Inl (HTTPException 400
          ''Your submission doesn't look like a real story. Please try again.'')
      else
        let db_story = \<lparr>title = title story, author_name = author_name story,
                         author_email = author_email story, story_text = story_text story,
                         category = category story, story_id = assign_id db,
                         approved = False, created_at = now, updated_at = now\<rparr>
        in Inr (db @ [db_story], story_id db_story, ''Story submitted for review''))"

definition get_pending_stories :: "table \<Rightarrow> Story list" where
  "get_pending_stories db = order_by_created_at_desc db"

definition approve_story :: "int \<Rightarrow> timestamp \<Rightarrow> table \<Rightarrow> http_error + (table \<times> string)" where
  "approve_story sid now db =
     (case filter (\<lambda>s. story_id s = sid) db of
        [] \<Rightarrow> Inl (HTTPException 404 ''Story not found'')
      | story # _ \<Rightarrow>
          Inr (map (\<lambda>s. if story_id s = story_id story
                         then s\<lparr>approved := True, updated_at := now\<rparr> else s) db,
               ''Story approved''))"

definition reject_story :: "int \<Rightarrow> table \<Rightarrow> http_error + (table \<times> string)" where
  "reject_story sid db =
     (case filter (\<lambda>s. story_id s = sid) db of
        [] \<Rightarrow> Inl (HTTPException 404 ''Story not found'')
      | story # _ \<Rightarrow>
          Inr (filter (\<lambda>s. story_id s \<noteq> story_id story) db, ''Story deleted''))"

subsection \<open>Histories of writing requests\<close>

text \<open>
  The three endpoints that write, as requests; a request that ends in an
  \<open>HTTPException\<close> leaves the table as it was.
\<close>

datatype request =
    Submit StoryCreate timestamp
  | Approve int timestamp
  | Reject int

fun handle :: "unicode_tables \<Rightarrow> (pystr \<Rightarrow> bool) \<Rightarrow> request \<Rightarrow> table \<Rightarrow> table" where
  "handle U P (Submit story now) db =
     (case create_story U P now story db of Inl _ \<Rightarrow> db | Inr (db', _) \<Rightarrow> db')"
| "handle U P (Approve sid now) db =
     (case approve_story sid now db of Inl _ \<Rightarrow> db | Inr (db', _) \<Rightarrow> db')"
| "handle U P (Reject sid) db =
     (case reject_story sid db of Inl _ \<Rightarrow> db | Inr (db', _) \<Rightarrow> db')"

definition run :: "unicode_tables \<Rightarrow> (pystr \<Rightarrow> bool) \<Rightarrow> request list \<Rightarrow> table \<Rightarrow> table" where
  "run U P reqs db = fold (handle U P) reqs db"

text \<open>
  A request approves the story \<open>i\<close> when it is the approve endpoint called with that id.
  The story \<open>i\<close> is pending in a table when no row with that id is approved.
\<close>

fun approves :: "int \<Rightarrow> request \<Rightarrow> bool" where
  "approves i (Approve sid now) = (sid = i)"
| "approves i _ = False"

definition pending :: "int \<Rightarrow> table \<Rightarrow> bool" where
  "pending i db = (\<forall>s \<in> set db. story_id s = i \<longrightarrow> \<not> approved s)"

section \<open>The acceptance rule in the words of the specification\<close>

text \<open>
  The five checks as the specification words them, with exact ratios: a count is more
  than 30% of a total when ten times the count exceeds three times the total, and more
  than 20% when five times the count exceeds the total.
\<close>

datatype check = Profanity | Length | Repetition | Symbols | Gibberish

definition spec_nonstandard :: "unicode_tables \<Rightarrow> pystr \<Rightarrow> nat" where
  \<comment> \<open>characters neither alphanumeric nor permitted punctuation\<close>
  "spec_nonstandard U text =
     length (filter (\<lambda>c. \<not> (isalnum U c \<or> c \<in> {32, 46, 44, 33, 63, 59, 58, 39, 34, 8212, 8211, 45})) text)"

definition spec_gibberish_word :: "unicode_tables \<Rightarrow> pystr \<Rightarrow> bool" where
  \<comment> \<open>longer than 8 characters and without a vowel, whatever the case\<close>
  "spec_gibberish_word U w =
     (8 < length w \<and> (\<forall>c \<in> set (str_lower U w). c \<notin> set (py_str ''aeiou'')))"

definition spec_first_failing :: "unicode_tables \<Rightarrow> (pystr \<Rightarrow> bool) \<Rightarrow> pystr \<Rightarrow> check option" where
  "spec_first_failing U P text =
     (if P text then Some Profanity
      else if length (str_strip U text) < 10 then Some Length
      else if \<exists>c \<in> set text. 3 * length text < 10 * str_count text c then Some Repetition
      else if length text < 5 * spec_nonstandard U text then Some Symbols
      else if 3 * length (str_split U text)
              < 10 * length (filter (spec_gibberish_word U) (str_split U text))
        then Some Gibberish
      else None)"

definition reason_of :: "check \<Rightarrow> http_error" where
  \<comment> \<open>The two rejections of \<open>create_story\<close>: one for profanity, one for everything that
      \<open>is_legitimate_story\<close> refuses.\<close>
  "reason_of c =
     (if c = Profanity
      then HTTPException 400
        ''Your story contains inappropriate language. Please revise and resubmit.''
      else HTTPException 400
        ''Your submission doesn't look like a real story. Please try again.'')"


section \<open>Sample tables and inputs\<close>

definition latin1_tables :: unicode_tables where
  \<comment> \<open>The database of CPython 3.11 (Unicode 14.0) on the code points 128 to 255; nothing
      above is classified.\<close>
  "latin1_tables =
     \<lparr>general_category = (\<lambda>c.
        if 128 \<le> c \<and> c \<le> 159 then Cc
        else if c = 160 then Zs
        else if c \<in> {161, 167, 182, 183, 191} then Po
        else if 162 \<le> c \<and> c \<le> 165 then Sc
        else if c \<in> {166, 169, 174, 176} then So
        else if c \<in> {168, 175, 180, 184} then Sk
        else if c \<in> {170, 186} then Lo
        else if c = 171 then Pi
        else if c \<in> {172, 177, 215, 247} then Sm
        else if c = 173 then Cf
        else if c \<in> {178, 179, 185, 188, 189, 190} then No
        else if c = 187 then Pf
        else if (192 \<le> c \<and> c \<le> 214) \<or> (216 \<le> c \<and> c \<le> 222) then Lu
        else if c = 181 \<or> (223 \<le> c \<and> c \<le> 246) \<or> (248 \<le> c \<and> c \<le> 255) then Ll
        else Cn),
      numeric_type = (\<lambda>c.
        if c \<in> {178, 179, 185} then Some Digit
        else if c \<in> {188, 189, 190} then Some Numeric
        else None),
      isspace_ext = (\<lambda>c. c = 133 \<or> c = 160),
      lower_ext = map (\<lambda>c. if (65 \<le> c \<and> c \<le> 90) \<or> (192 \<le> c \<and> c \<le> 214) \<or> (216 \<le> c \<and> c \<le> 222)
                              then c + 32 else c)\<rparr>"


definition sample_submission :: "pystr \<Rightarrow> StoryCreate" where
  "sample_submission text =
     \<lparr>title = None, author_name = None, author_email = None,
      story_text = text, category = py_str ''Joy''\<rparr>"


definition sample_table :: table where
  "sample_table =
     [\<lparr>title = Some (py_str ''One''), author_name = None, author_email = None,
       story_text = py_str ''The first story of the table.'', category = py_str ''Joy'',
       story_id = 1, approved = True, created_at = 10, updated_at = 12\<rparr>,
      \<lparr>title = None, author_name = Some (py_str ''Ann''), author_email = None,
       story_text = py_str ''The second story, still pending.'', category = py_str ''Pain'',
       story_id = 2, approved = False, created_at = 20, updated_at = 20\<rparr>]"

section \<open>Rounding and the thresholds\<close>

lemma bit_length_bounds:
  "0 < n \<Longrightarrow> 2 ^ (bit_length n - 1) \<le> n \<and> n < 2 ^ bit_length n"
proof (induction n rule: bit_length.induct)
  case (1 n)
  show ?case
  proof (cases "n div 2 = 0")
    case True
    with 1(2) have n1: "n = 1" by presburger
    have "bit_length 1 = 1" by (simp add: bit_length.simps)
    with n1 show ?thesis by simp
  next
    case False
    with 1 have IH: "2 ^ (bit_length (n div 2) - 1) \<le> n div 2" "n div 2 < 2 ^ bit_length (n div 2)"
      by auto
    have pos: "0 < bit_length (n div 2)" using False by (simp add: bit_length.simps)
    have L: "bit_length n = Suc (bit_length (n div 2))" using 1(2) bit_length.simps[of n] by simp
    have a: "2 ^ (bit_length n - 1) \<le> n"
    proof -
      have "2 ^ (bit_length n - 1) = 2 * 2 ^ (bit_length (n div 2) - 1)"
        using pos L by (cases "bit_length (n div 2)") simp_all
      also have "\<dots> \<le> 2 * (n div 2)" using IH(1) by simp
      also have "\<dots> \<le> n" by simp
      finally show ?thesis .
    qed
    have b: "n < 2 ^ bit_length n"
    proof -
      have "n < 2 * (n div 2 + 1)" by presburger
      also have "\<dots> \<le> 2 * 2 ^ bit_length (n div 2)" using IH(2) by simp
      finally show ?thesis using L by simp
    qed
    from a b show ?thesis ..
  qed
qed

lemma bit_length_le: "n < 2 ^ k \<Longrightarrow> bit_length n \<le> k"
proof (cases "n = 0")
  case True then show ?thesis by (simp add: bit_length.simps)
next
  case False
  assume "n < 2 ^ k"
  moreover have "2 ^ (bit_length n - 1) \<le> n" using bit_length_bounds[of n] False by simp
  ultimately have "(2::nat) ^ (bit_length n - 1) < 2 ^ k" by (rule le_less_trans[rotated])
  then have "bit_length n - 1 < k" by (simp only: power_strict_increasing_iff rel_simps)
  then show ?thesis by simp
qed

lemma round53_exact: "a < 2 ^ 53 \<Longrightarrow> round53 a = a"
  using bit_length_le[of a 53] by (simp add: round53_def)

text \<open>
  Above 53 bits the representable values form a grid of step \<open>2 * h\<close>, where \<open>h\<close> is
  half a unit in the last place; rounding moves a value by at most \<open>h\<close>, and a grid point
  closer than \<open>h\<close> is the result.
\<close>

lemma round53_grid:
  assumes L: "53 < bit_length a"
  defines "h \<equiv> (2::nat) ^ (bit_length a - 54)"
  shows "h * 2 ^ 53 \<le> a" "a < h * 2 ^ 54" "0 < h"
    "round53 a \<le> a + h"
    "2 * h dvd T \<Longrightarrow> T \<le> a \<Longrightarrow> T \<le> round53 a"
    "2 * h dvd T \<Longrightarrow> a < T \<Longrightarrow> T < a + h \<Longrightarrow> T \<le> round53 a"
proof -
  define s where "s = bit_length a - 53"
  have s: "2 ^ s = 2 * h" "2 ^ (s - 1) = h"
    using L by (simp_all add: s_def h_def flip: power_Suc) 
  have apos: "0 < a" using L by (cases "a = 0") (simp_all add: bit_length.simps)
  have "h * 2 ^ 53 = 2 ^ (bit_length a - 54 + 53)"
    unfolding h_def by (rule power_add[symmetric])
  also have "bit_length a - 54 + 53 = bit_length a - 1" using L by simp
  finally have "h * 2 ^ 53 = 2 ^ (bit_length a - 1)" .
  then show 1: "h * 2 ^ 53 \<le> a" using bit_length_bounds[of a] apos by simp
  have "h * 2 ^ 54 = 2 ^ (bit_length a - 54 + 54)"
    unfolding h_def by (rule power_add[symmetric])
  also have "bit_length a - 54 + 54 = bit_length a" using L by simp
  finally have "h * 2 ^ 54 = 2 ^ bit_length a" .
  then show 2: "a < h * 2 ^ 54" using bit_length_bounds[of a] apos by simp
  show hpos: "0 < h" by (simp add: h_def)
  define q where "q = a div (2 * h)"
  define r where "r = a mod (2 * h)"
  have a: "a = q * (2 * h) + r" unfolding q_def r_def by (rule div_mult_mod_eq[symmetric])
  have r: "r < 2 * h" using hpos by (simp add: r_def)
  have R: "round53 a = (if h < r \<or> (r = h \<and> odd q) then (q + 1) * (2 * h) else q * (2 * h))"
    using L s by (simp add: round53_def Let_def q_def r_def flip: s_def)
  have up: "(q + 1) * (2 * h) = q * (2 * h) + 2 * h" by simp
  show "round53 a \<le> a + h"
  proof (cases "h < r \<or> (r = h \<and> odd q)")
    case True
    then have "round53 a = q * (2 * h) + 2 * h" unfolding R up by (simp only: if_True)
    moreover have "h \<le> r" using True by auto
    ultimately show ?thesis using a by linarith
  next
    case False
    then have "round53 a = q * (2 * h)" unfolding R by (simp only: if_False)
    then show ?thesis using a by linarith
  qed
  have lo: "q * (2 * h) \<le> round53 a" unfolding R up by (simp only: if_split le_add1 order_refl simp_thms)
  {
    assume d: "2 * h dvd T" and le: "T \<le> a"
    then obtain t where t: "T = t * (2 * h)" by (auto simp: dvd_def mult.commute)
    have "t \<le> q" using le hpos unfolding t q_def
      by (simp add: less_eq_div_iff_mult_less_eq)
    then have "T \<le> q * (2 * h)" unfolding t by simp
    then show "T \<le> round53 a" using lo by (rule order_trans)
  }
  {
    assume d: "2 * h dvd T" and lt: "a < T" and near: "T < a + h"
    then obtain t where t: "T = t * (2 * h)" by (auto simp: dvd_def mult.commute)
    have "q * (2 * h) < t * (2 * h)" using lt a unfolding t by linarith
    then have "q < t" by simp
    then have "(q + 1) * (2 * h) \<le> t * (2 * h)" by (intro mult_right_mono) auto
    then have g: "(q + 1) * (2 * h) \<le> T" unfolding t .
    from up g near a have "h < r" by linarith
    then have Ru: "round53 a = (q + 1) * (2 * h)" by (simp add: R)
    have "(q + 2) * (2 * h) = q * (2 * h) + 2 * h + 2 * h" by (simp add: algebra_simps)
    with near a r have "t * (2 * h) < (q + 2) * (2 * h)" unfolding t by linarith
    then have "t < q + 2" by (rule mult_less_cancel2[THEN iffD1, THEN conjunct2])
    then have "t \<le> q + 1" by simp
    then have "T \<le> (q + 1) * (2 * h)" unfolding t by (intro mult_right_mono) auto
    then show "T \<le> round53 a" by (simp add: Ru)
  }
qed


lemma bit_length_lt: "bit_length a \<le> k \<Longrightarrow> a < 2 ^ k"
proof (cases "a = 0")
  case True then show ?thesis by simp
next
  case False
  assume k: "bit_length a \<le> k"
  have "a < 2 ^ bit_length a" using bit_length_bounds[of a] False by simp
  also have "(2::nat) ^ bit_length a \<le> 2 ^ k" using k by (intro power_increasing) auto
  finally show ?thesis .
qed

lemma grid_dvd:
  assumes "53 < bit_length a" "a < 2 ^ 107"
  shows "2 * 2 ^ (bit_length a - 54) dvd k * (2::nat) ^ 54"
proof -
  have "bit_length a \<le> 107" using assms(2) by (rule bit_length_le)
  then have le: "Suc (bit_length a - 54) \<le> 54" using assms(1) by simp
  have "(2::nat) ^ Suc (bit_length a - 54) dvd 2 ^ 54" using le by (rule le_imp_power_dvd)
  then have "2 * (2::nat) ^ (bit_length a - 54) dvd 2 ^ 54" by (simp only: power_Suc)
  then show ?thesis by (rule dvd_mult)
qed

lemma gt_round_0_3:
  assumes n: "n < 2 ^ 52"
  shows "round53 (n * 5404319552844595) < k * 2 ^ 54 \<longleftrightarrow> 3 * n < 10 * k"
proof -
  define a where "a = n * 5404319552844595"
  define T where "T = k * (2::nat) ^ 54"
  have a: "a = n * 5404319552844595" by (rule a_def)
  have T: "T = k * 18014398509481984" by (simp add: T_def)
  have n': "n < 4503599627370496" using n by simp
  show ?thesis unfolding a_def[symmetric] T_def[symmetric]
  proof (cases "bit_length a \<le> 53")
    case True
    then have "a < 2 ^ 53" by (rule bit_length_lt)
    then have small: "a < 9007199254740992" by simp
    then have R: "round53 a = a" by (simp add: round53_exact)
    from small a have "n = 0 \<or> n = 1" by linarith
    then show "round53 a < T \<longleftrightarrow> 3 * n < 10 * k"
      unfolding R using a T by (elim disjE) (simp, linarith)
  next
    case False
    then have L: "53 < bit_length a" by simp
    define h where "h = (2::nat) ^ (bit_length a - 54)"
    have "a < 2 ^ 107" using a n' by simp
    with L have d: "2 * h dvd T" unfolding h_def T_def by (rule grid_dvd)
    note g = round53_grid[OF L, folded h_def]
    have h1: "h * 9007199254740992 \<le> a" using g(1) by simp
    have h2: "a < h * 18014398509481984" using g(2) by simp
    show "round53 a < T \<longleftrightarrow> 3 * n < 10 * k"
    proof
      assume lt: "round53 a < T"
      show "3 * n < 10 * k"
      proof (rule ccontr)
        assume "\<not> 3 * n < 10 * k"
        then have c: "10 * k \<le> 3 * n" by simp
        have "T \<le> round53 a"
        proof (cases "T \<le> a")
          case True
          with d show ?thesis by (rule g(5))
        next
          case False
          then have 1: "a < T" by simp
          have 2: "T < a + h" using c a T h2 1 by linarith
          from d 1 2 show ?thesis by (rule g(6))
        qed
        with lt show False by simp
      qed
    next
      assume "3 * n < 10 * k"
      then have "a + h < T" using a T h1 n' by linarith
      with g(4) show "round53 a < T" by linarith
    qed
  qed
qed

lemma gt_round_0_2:
  assumes n: "n < 2 ^ 52"
  shows "round53 (n * 3602879701896397) < k * 2 ^ 54 \<longleftrightarrow> n < 5 * k"
proof -
  define a where "a = n * 3602879701896397"
  define T where "T = k * (2::nat) ^ 54"
  have a: "a = n * 3602879701896397" by (rule a_def)
  have T: "T = k * 18014398509481984" by (simp add: T_def)
  have n': "n < 4503599627370496" using n by simp
  show ?thesis unfolding a_def[symmetric] T_def[symmetric]
  proof (cases "bit_length a \<le> 53")
    case True
    then have "a < 2 ^ 53" by (rule bit_length_lt)
    then have R: "round53 a = a" by (simp add: round53_exact)
    show "round53 a < T \<longleftrightarrow> n < 5 * k"
      unfolding R using a T n' by linarith
  next
    case False
    then have L: "53 < bit_length a" by simp
    define h where "h = (2::nat) ^ (bit_length a - 54)"
    have "a < 2 ^ 107" using a n' by simp
    with L have d: "2 * h dvd T" unfolding h_def T_def by (rule grid_dvd)
    note g = round53_grid[OF L, folded h_def]
    have h1: "h * 9007199254740992 \<le> a" using g(1) by simp
    show "round53 a < T \<longleftrightarrow> n < 5 * k"
    proof
      assume lt: "round53 a < T"
      show "n < 5 * k"
      proof (rule ccontr)
        assume "\<not> n < 5 * k"
        then have "T \<le> a" using a T by linarith
        with d have "T \<le> round53 a" by (rule g(5))
        with lt show False by simp
      qed
    next
      assume "n < 5 * k"
      then have "a + h < T" using a T h1 n' by linarith
      with g(4) show "round53 a < T" by linarith
    qed
  qed
qed

lemma gt_0_3:
  "n < 2 ^ 52 \<Longrightarrow> int_gt_float k (int_times_float n literal_0_3) \<longleftrightarrow> 3 * n < 10 * k"
  using gt_round_0_3[of n k] round53_exact[of n]
  by (simp add: int_gt_float_def int_times_float_def literal_0_3_def)

lemma gt_0_2:
  "n < 2 ^ 52 \<Longrightarrow> int_gt_float k (int_times_float n literal_0_2) \<longleftrightarrow> n < 5 * k"
  using gt_round_0_2[of n k] round53_exact[of n]
  by (simp add: int_gt_float_def int_times_float_def literal_0_2_def)

section \<open>The loops and counts of \<open>is_legitimate_story\<close>\<close>

lemmas isalnum_defs = isalnum_def isalpha_def isdecimal_def isdigit_def isnumeric_def

lemma repeated_char_iff:
  "repeated_char text cs \<longleftrightarrow>
     (\<exists>c \<in> set cs. int_gt_float (str_count text c) (int_times_float (length text) literal_0_3))"
  by (induction cs) auto

lemma vowels_zero_iff:
  "vowels U w = 0 \<longleftrightarrow> (\<forall>c \<in> set (str_lower U w). c \<notin> set (py_str ''aeiou''))"
  unfolding vowels_def by (simp only: length_0_conv filter_empty_conv) 

lemma gibberish_loop_eq:
  "gibberish_loop U ws g = g + length (filter (spec_gibberish_word U) ws)"
  by (induction ws arbitrary: g) (simp_all add: spec_gibberish_word_def vowels_zero_iff)

lemma non_alpha_eq: "non_alpha U text = spec_nonstandard U text"
  by (simp add: non_alpha_def spec_nonstandard_def permitted_punctuation_def)

lemma length_split_scan:
  "length (split_scan U xs cur) \<le> (if cur = [] then length xs else Suc (length xs))"
proof (induction xs arbitrary: cur)
  case Nil
  show ?case by simp
next
  case (Cons c cs)
  have 1: "length (split_scan U cs []) \<le> length cs" using Cons[of "[]"] by simp
  have 2: "length (split_scan U cs (cur @ [c])) \<le> Suc (length cs)"
    using Cons[of "cur @ [c]"] by simp
  have 3: "length (split_scan U cs [c]) \<le> Suc (length cs)"
    using Cons[of "[c]"] by simp
  from 1 2 3 show ?case by simp
qed

lemma length_str_split: "length (str_split U text) \<le> length text"
  using length_split_scan[of U "text" "[]"] by (simp add: str_split_def)

lemma legit_iff:
  assumes n: "length text < 2 ^ 52"
  shows "is_legitimate_story U text \<longleftrightarrow>
     10 \<le> length (str_strip U text)
     \<and> (\<forall>c \<in> set text. 10 * str_count text c \<le> 3 * length text)
     \<and> 5 * spec_nonstandard U text \<le> length text
     \<and> 10 * length (filter (spec_gibberish_word U) (str_split U text))
         \<le> 3 * length (str_split U text)"
proof -
  have w: "length (str_split U text) < 2 ^ 52"
    using length_str_split[of U "text"] n by (rule le_less_trans)
  show ?thesis
    unfolding is_legitimate_story_def Let_def repeated_char_iff gibberish_loop_eq non_alpha_eq
      gt_0_3[OF n] gt_0_2[OF n] gt_0_3[OF w]
    by (auto simp: not_le)
qed

section \<open>The outcomes of \<open>create_story\<close>\<close>

lemma create_story_cases:
  assumes "category story \<in> set ALLOWED_CATEGORIES"
  shows "create_story U P now story db =
     (if P (story_text story) then Inl (reason_of Profanity)
      else if \<not> is_legitimate_story U (story_text story)
        then Inl (HTTPException 400
          ''Your submission doesn't look like a real story. Please try again.'')
      else Inr (db @ [\<lparr>title = title story, author_name = author_name story,
                        author_email = author_email story, story_text = story_text story,
                        category = category story, story_id = assign_id db,
                        approved = False, created_at = now, updated_at = now\<rparr>],
                assign_id db, ''Story submitted for review''))"
  using assms by (simp add: create_story_def reason_of_def Let_def)

lemma reason_of_legitimacy:
  "c \<noteq> Profanity \<Longrightarrow> reason_of c =
     HTTPException 400 ''Your submission doesn't look like a real story. Please try again.''"
  by (simp add: reason_of_def)

lemma spec_first_failing_None:
  "spec_first_failing U P t = None \<longleftrightarrow>
     \<not> P t \<and> 10 \<le> length (str_strip U t)
     \<and> (\<forall>c \<in> set t. 10 * str_count t c \<le> 3 * length t)
     \<and> 5 * spec_nonstandard U t \<le> length t
     \<and> 10 * length (filter (spec_gibberish_word U) (str_split U t)) \<le> 3 * length (str_split U t)"
  unfolding spec_first_failing_def
  by (simp add: not_less del: Set.ball_simps Set.bex_simps) (metis not_less)

lemma spec_first_failing_Profanity:
  "spec_first_failing U P t = Some Profanity \<longleftrightarrow> P t"
  by (simp add: spec_first_failing_def)

lemma legit_first_failing:
  "length t < 2 ^ 52 \<Longrightarrow>
     is_legitimate_story U t \<longleftrightarrow> spec_first_failing U (\<lambda>t. False) t = None"
  by (simp add: legit_iff spec_first_failing_None)

lemma split_scan_empty_iff:
  "split_scan U xs cur = [] \<longleftrightarrow> cur = [] \<and> (\<forall>c \<in> set xs. isspace U c)"
  by (induction xs arbitrary: cur) auto

lemma int_times_float_0: "int_times_float 0 x = 0"
  by (simp add: int_times_float_def round53_exact)

section \<open>Reading and writing the table\<close>

lemma set_order_by: "set (order_by_created_at_desc rows) = set rows"
  by (simp add: order_by_created_at_desc_def)

lemma get_public_stories_approved:
  "get_public_stories cat db = Inr ss \<Longrightarrow> s \<in> set ss \<Longrightarrow> s \<in> set db \<and> approved s"
  by (auto simp: get_public_stories_def set_order_by Let_def split: option.splits if_splits)

lemma get_story_approved:
  assumes "get_story sid db = Inr s"
  shows "s \<in> set db \<and> approved s \<and> story_id s = sid"
proof -
  from assms obtain rest where "filter (\<lambda>s. story_id s = sid \<and> approved s) db = s # rest"
    by (auto simp: get_story_def split: list.splits)
  then have "s \<in> set (filter (\<lambda>s. story_id s = sid \<and> approved s) db)" by simp
  then show ?thesis by simp
qed

lemma get_random_story_approved:
  assumes "get_random_story r db = Inr s"
  shows "s \<in> set db \<and> approved s"
proof -
  let ?st = "filter approved db"
  from assms have ne: "?st \<noteq> []" and s: "s = ?st ! (r mod length ?st)"
    by (auto simp: get_random_story_def Let_def split: if_splits)
  from ne have "r mod length ?st < length ?st" by simp
  then have "s \<in> set ?st" unfolding s by (rule nth_mem)
  then show ?thesis by simp
qed

lemma get_story_hidden:
  assumes "\<forall>s \<in> set db. story_id s = i \<longrightarrow> \<not> approved s"
  shows "get_story i db = Inl (HTTPException 404 ''Story not found'')"
proof -
  have "filter (\<lambda>s. story_id s = i \<and> approved s) db = []"
    using assms by (auto simp: filter_empty_conv)
  then show ?thesis by (simp add: get_story_def)
qed

lemma fold_max_ge: "a \<le> fold max xs (a::int)"
proof (induction xs arbitrary: a)
  case Nil
  show ?case by simp
next
  case (Cons y ys)
  have "a \<le> max y a" by simp
  also have "\<dots> \<le> fold max ys (max y a)" by (rule Cons.IH)
  finally show ?case by simp
qed

lemma fold_max_mem: "x \<in> set xs \<Longrightarrow> x \<le> fold max xs (a::int)"
proof (induction xs arbitrary: a)
  case Nil then show ?case by simp
next
  case (Cons y ys)
  show ?case
  proof (cases "x = y")
    case True
    have "max y a \<le> fold max ys (max y a)" by (rule fold_max_ge)
    then show ?thesis using True by simp
  next
    case False
    with Cons.prems have "x \<in> set ys" by simp
    then show ?thesis using Cons.IH by simp
  qed
qed

lemma assign_id_fresh: "s \<in> set db \<Longrightarrow> story_id s < assign_id db"
  using fold_max_mem[of "story_id s" "map story_id db" 0] by (simp add: assign_id_def)

lemma create_story_Inr:
  assumes "create_story U P now story db = Inr (db', i, m)"
  shows "i = assign_id db \<and> m = ''Story submitted for review''
     \<and> db' = db @ [\<lparr>title = title story, author_name = author_name story,
                        author_email = author_email story, story_text = story_text story,
                        category = category story, story_id = assign_id db,
                        approved = False, created_at = now, updated_at = now\<rparr>]"
  using assms by (auto simp: create_story_def Let_def split: if_splits)

lemma approve_story_Inr:
  assumes "approve_story sid now db = Inr (db', m)"
  shows "db' = map (\<lambda>s. if story_id s = sid then s\<lparr>approved := True, updated_at := now\<rparr> else s) db
     \<and> m = ''Story approved'' \<and> sid \<in> story_id ` set db"
proof -
  from assms obtain story rest where f: "filter (\<lambda>s. story_id s = sid) db = story # rest"
    by (auto simp: approve_story_def split: list.splits)
  then have "story \<in> set (filter (\<lambda>s. story_id s = sid) db)" by simp
  then have sid: "story_id story = sid" and mem: "story \<in> set db" by simp_all
  from assms f sid mem show ?thesis by (auto simp: approve_story_def)
qed

lemma approve_story_exists:
  assumes "sid \<in> story_id ` set db"
  shows "approve_story sid now db =
     Inr (map (\<lambda>s. if story_id s = sid then s\<lparr>approved := True, updated_at := now\<rparr> else s) db,
          ''Story approved'')"
proof -
  from assms have "filter (\<lambda>s. story_id s = sid) db \<noteq> []"
    by (auto simp: filter_empty_conv)
  then obtain story rest where f: "filter (\<lambda>s. story_id s = sid) db = story # rest"
    by (cases "filter (\<lambda>s. story_id s = sid) db") auto
  then have "story \<in> set (filter (\<lambda>s. story_id s = sid) db)" by simp
  then have sid: "story_id story = sid" by simp
  show ?thesis by (simp add: approve_story_def f sid)
qed

lemma reject_story_Inr:
  assumes "reject_story sid db = Inr (db', m)"
  shows "set db' \<subseteq> set db"
  using assms by (auto simp: reject_story_def split: list.splits)

lemma handle_pending:
  assumes "pending i db" and "\<not> approves i r"
  shows "pending i (handle U P r db)"
proof (cases r)
  case (Submit story now)
  show ?thesis
  proof (cases "create_story U P now story db")
    case (Inl e)
    with Submit assms show ?thesis by simp
  next
    case (Inr res)
    obtain db' j m where res: "res = (db', j, m)" by (cases res)
    from create_story_Inr[OF Inr[unfolded res]] assms(1) Submit Inr res
    show ?thesis by (auto simp: pending_def)
  qed
next
  case (Approve sid now)
  with assms(2) have ne: "sid \<noteq> i" by simp
  show ?thesis
  proof (cases "approve_story sid now db")
    case (Inl e)
    with Approve assms show ?thesis by simp
  next
    case (Inr res)
    obtain db' m where res: "res = (db', m)" by (cases res)
    from approve_story_Inr[OF Inr[unfolded res]] assms(1) ne Approve Inr res
    show ?thesis by (auto simp: pending_def)
  qed
next
  case (Reject sid)
  show ?thesis
  proof (cases "reject_story sid db")
    case (Inl e)
    with Reject assms show ?thesis by simp
  next
    case (Inr res)
    obtain db' m where res: "res = (db', m)" by (cases res)
    from reject_story_Inr[OF Inr[unfolded res]] assms(1) Reject Inr res
    show ?thesis by (auto simp: pending_def)
  qed
qed

lemma run_pending:
  "pending i db \<Longrightarrow> \<not> list_ex (approves i) reqs \<Longrightarrow> pending i (run U P reqs db)"
  unfolding run_def
  by (induction reqs arbitrary: db) (simp_all add: handle_pending)

lemma approve_new_row:
  assumes fresh: "\<forall>s \<in> set db. story_id s \<noteq> story_id row"
  shows "get_story (story_id row) (handle U P (Approve (story_id row) t) (db @ [row]))
     = Inr (row\<lparr>approved := True, updated_at := t\<rparr>)"
proof -
  let ?i = "story_id row"
  let ?f = "\<lambda>s. if story_id s = ?i then s\<lparr>approved := True, updated_at := t\<rparr> else s"
  have mem: "?i \<in> story_id ` set (db @ [row])" by simp
  have h: "handle U P (Approve ?i t) (db @ [row]) = map ?f (db @ [row])"
    by (simp add: approve_story_exists[OF mem])
  have old: "map ?f db = db" using fresh by (simp add: map_idI)
  have none: "filter (\<lambda>s. story_id s = ?i \<and> approved s) db = []"
    using fresh by (auto simp: filter_empty_conv)
  show ?thesis unfolding h by (simp add: old get_story_def none)
qed

section \<open>Evaluation on sample inputs\<close>

lemma joy_allowed: "category (sample_submission t) \<in> set ALLOWED_CATEGORIES"
  by (simp add: sample_submission_def ALLOWED_CATEGORIES_def py_str_def)

lemma short_not_legit: "length (str_strip U t) < 10 \<Longrightarrow> \<not> is_legitimate_story U t"
  by (simp add: is_legitimate_story_def)

lemma strip_hi: "str_strip latin1_tables (py_str ''hi'') = py_str ''hi''"
  by (simp add: str_strip_def py_str_def isspace_def)

lemma strip_short:
  "str_strip U (py_str ''   hi      '') = py_str ''hi''"
  by (simp add: str_strip_def py_str_def isspace_def)

lemma strip_spam:
  "str_strip U (py_str ''aaaaaaaaaaaaaaaaaaaa'') = py_str ''aaaaaaaaaaaaaaaaaaaa''"
  by (simp add: str_strip_def py_str_def isspace_def)

lemma spam_repeated:
  "repeated_char (py_str ''aaaaaaaaaaaaaaaaaaaa'') (py_str ''aaaaaaaaaaaaaaaaaaaa'')"
proof -
  have n: "length (py_str ''aaaaaaaaaaaaaaaaaaaa'') < 2 ^ 52" by (simp add: py_str_def)
  show ?thesis
    unfolding repeated_char_iff gt_0_3[OF n]
    by (simp add: py_str_def str_count_def)
qed

lemmas eval_defs = py_str_def str_strip_def isspace_def str_count_def spec_nonstandard_def
  isalnum_defs str_split_def spec_gibberish_word_def str_lower_def spec_first_failing_def

lemma good_first_failing:
  "spec_first_failing U (\<lambda>t. False)
     (py_str ''Today I learned something important about my family and our past.'') = None"
  by (simp add: eval_defs)

lemma gib_first_failing:
  "spec_first_failing U (\<lambda>t. False)
     (py_str ''Xqzvbnmfjhpl xqzvbnmfjhpl xqzvbnmfjhpl'') = Some Gibberish"
  by (simp add: eval_defs)

lemma over_first_failing:
  "spec_first_failing U (\<lambda>t. False) (py_str ''aaaabcdefg'') = Some Repetition"
  by (simp add: eval_defs)

lemma boundary_counts:
  "10 * str_count (py_str ''aaabcdefgh'') 97 = 3 * length (py_str ''aaabcdefgh'')"
  by (simp add: py_str_def str_count_def)

lemma good_legit:
  "is_legitimate_story U
     (py_str ''Today I learned something important about my family and our past.'')"
proof -
  have "length (py_str ''Today I learned something important about my family and our past.'')
      < 2 ^ 52"
    by (simp add: py_str_def)
  then show ?thesis by (simp add: legit_first_failing good_first_failing)
qed

lemma good_created:
  "create_story U (\<lambda>t. False) 0
     (sample_submission
        (py_str ''Today I learned something important about my family and our past.'')) []
   = Inr ([\<lparr>title = None, author_name = None, author_email = None,
            story_text = py_str ''Today I learned something important about my family and our past.'',
            category = py_str ''Joy'', story_id = 1, approved = False,
            created_at = 0, updated_at = 0\<rparr>], 1, ''Story submitted for review'')"
  unfolding create_story_cases[OF joy_allowed]
  by (simp add: sample_submission_def good_legit assign_id_def)

section \<open>The submission pipeline\<close>

text \<open>
  C1. For a submission with an allowed category (and a text of fewer than \<open>2^52\<close>
  characters), \<open>create_story\<close> stores the story exactly when the text has no profanity,
  its stripped length is at least 10, no character makes up more than 30% of the text,
  the characters that are neither alphanumeric nor permitted punctuation are at most 20%
  of the text, and the long vowel-less words are at most 30% of the words. Otherwise the
  answer is the rejection belonging to the first check that fails, in the order profanity,
  length, repetition, symbols, gibberish.
\<close>

theorem acceptance_iff_all_checks_pass:
  assumes cat: "category story \<in> set ALLOWED_CATEGORIES"
    and n: "length (story_text story) < 2 ^ 52"
  shows "((\<exists>res. create_story U P now story db = Inr res) \<longleftrightarrow>
            \<not> P (story_text story)
          \<and> 10 \<le> length (str_strip U (story_text story))
          \<and> (\<forall>c \<in> set (story_text story).
                10 * str_count (story_text story) c \<le> 3 * length (story_text story))
          \<and> 5 * spec_nonstandard U (story_text story) \<le> length (story_text story)
          \<and> 10 * length (filter (spec_gibberish_word U) (str_split U (story_text story)))
              \<le> 3 * length (str_split U (story_text story)))
       \<and> create_story U P now story db =
          (case spec_first_failing U P (story_text story) of
             None \<Rightarrow>
               Inr (db @ [\<lparr>title = title story, author_name = author_name story,
                           author_email = author_email story, story_text = story_text story,
                           category = category story, story_id = assign_id db,
                           approved = False, created_at = now, updated_at = now\<rparr>],
                    assign_id db, ''Story submitted for review'')
           | Some c \<Rightarrow> Inl (reason_of c))"
proof -
  let ?t = "story_text story"
  note L = legit_iff[OF n, of U]
  have A: "(\<exists>res. create_story U P now story db = Inr res) \<longleftrightarrow>
      \<not> P ?t \<and> is_legitimate_story U ?t"
    unfolding create_story_cases[OF cat] by simp
  have B: "create_story U P now story db =
          (case spec_first_failing U P ?t of
             None \<Rightarrow>
               Inr (db @ [\<lparr>title = title story, author_name = author_name story,
                           author_email = author_email story, story_text = ?t,
                           category = category story, story_id = assign_id db,
                           approved = False, created_at = now, updated_at = now\<rparr>],
                    assign_id db, ''Story submitted for review'')
           | Some c \<Rightarrow> Inl (reason_of c))"
  proof (cases "P ?t")
    case True
    then show ?thesis
      unfolding create_story_cases[OF cat] by (simp add: spec_first_failing_def)
  next
    case False
    show ?thesis
    proof (cases "is_legitimate_story U ?t")
      case True
      with False have "spec_first_failing U P ?t = None"
        unfolding L spec_first_failing_None by simp
      with False True show ?thesis
        unfolding create_story_cases[OF cat] by simp
    next
      case nl: False
      then have "spec_first_failing U P ?t \<noteq> None"
        unfolding L spec_first_failing_None by simp
      then obtain c where c: "spec_first_failing U P ?t = Some c" by blast
      with False have "c \<noteq> Profanity" using spec_first_failing_Profanity[of U P ?t] by auto
      note c = c this
      with False nl show ?thesis
        unfolding create_story_cases[OF cat] by (simp add: reason_of_legitimacy)
    qed
  qed
  from A[unfolded L] B show ?thesis by (rule conjI)
qed

theorem acceptance_iff_all_checks_pass_witness:
  "category (sample_submission
       (py_str ''Today I learned something important about my family and our past.''))
     \<in> set ALLOWED_CATEGORIES
   \<and> length (story_text (sample_submission
       (py_str ''Today I learned something important about my family and our past.''))) < 2 ^ 52
   \<and> (\<exists>res. create_story latin1_tables (\<lambda>t. False) 0
         (sample_submission
           (py_str ''Today I learned something important about my family and our past.'')) []
        = Inr res)
   \<and> category (sample_submission (py_str ''Xqzvbnmfjhpl xqzvbnmfjhpl xqzvbnmfjhpl''))
     \<in> set ALLOWED_CATEGORIES
   \<and> length (story_text (sample_submission (py_str ''Xqzvbnmfjhpl xqzvbnmfjhpl xqzvbnmfjhpl'')))
       < 2 ^ 52
   \<and> create_story latin1_tables (\<lambda>t. False) 0
         (sample_submission (py_str ''Xqzvbnmfjhpl xqzvbnmfjhpl xqzvbnmfjhpl'')) []
       = Inl (HTTPException 400
           ''Your submission doesn't look like a real story. Please try again.'')"
proof -
  let ?good = "sample_submission
       (py_str ''Today I learned something important about my family and our past.'')"
  let ?gib = "sample_submission (py_str ''Xqzvbnmfjhpl xqzvbnmfjhpl xqzvbnmfjhpl'')"
  have c1: "category ?good \<in> set ALLOWED_CATEGORIES" by (rule joy_allowed)
  have c2: "category ?gib \<in> set ALLOWED_CATEGORIES" by (rule joy_allowed)
  have n1: "length (story_text ?good) < 2 ^ 52"
    by (simp add: sample_submission_def py_str_def)
  have n2: "length (story_text ?gib) < 2 ^ 52"
    by (simp add: sample_submission_def py_str_def)
  have f1: "spec_first_failing latin1_tables (\<lambda>t. False) (story_text ?good) = None"
    by (simp add: sample_submission_def good_first_failing)
  have f2: "spec_first_failing latin1_tables (\<lambda>t. False) (story_text ?gib) = Some Gibberish"
    by (simp add: sample_submission_def gib_first_failing)
  have r1: "\<exists>res. create_story latin1_tables (\<lambda>t. False) 0 ?good [] = Inr res"
    using acceptance_iff_all_checks_pass[OF c1 n1, of latin1_tables "\<lambda>t. False" 0 "[]"]
    by (simp only: f1 option.case) blast
  have r2: "create_story latin1_tables (\<lambda>t. False) 0 ?gib []
       = Inl (HTTPException 400
           ''Your submission doesn't look like a real story. Please try again.'')"
    using acceptance_iff_all_checks_pass[OF c2 n2, of latin1_tables "\<lambda>t. False" 0 "[]"]
    by (simp only: f2 option.case) (simp add: reason_of_def)
  from c1 n1 r1 c2 n2 r2 show ?thesis by blast
qed

text \<open>
  C2 (as the code has it). A text without profanity whose stripped length is below 10 is
  refused with the same message as a text that fails a legitimacy sub-check:
  \<open>is_legitimate_story\<close> returns a boolean, and \<open>create_story\<close> has one message for it.
\<close>

theorem too_short_generic_rejection:
  assumes "category story \<in> set ALLOWED_CATEGORIES"
    and "\<not> P (story_text story)"
    and "length (str_strip U (story_text story)) < 10"
  shows "create_story U P now story db =
     Inl (HTTPException 400
       ''Your submission doesn't look like a real story. Please try again.'')"
  using assms by (simp add: create_story_def is_legitimate_story_def)

theorem too_short_generic_rejection_witness:
  "category (sample_submission (py_str ''   hi      '')) \<in> set ALLOWED_CATEGORIES
   \<and> \<not> (\<lambda>t. False) (story_text (sample_submission (py_str ''   hi      '')))
   \<and> length (str_strip latin1_tables (story_text (sample_submission (py_str ''   hi      '')))) < 10
   \<and> create_story latin1_tables (\<lambda>t. False) 0 (sample_submission (py_str ''   hi      '')) [] =
     Inl (HTTPException 400
       ''Your submission doesn't look like a real story. Please try again.'')"
proof -
  have c: "category (sample_submission (py_str ''   hi      '')) \<in> set ALLOWED_CATEGORIES"
    by (rule joy_allowed)
  have p: "\<not> (\<lambda>t. False) (story_text (sample_submission (py_str ''   hi      '')))"
    by simp
  have s: "length (str_strip latin1_tables (story_text (sample_submission (py_str ''   hi      '')))) < 10"
    by (simp add: sample_submission_def strip_short) (simp add: py_str_def)
  from c p s too_short_generic_rejection[OF c p s, of 0 "[]"]
  show ?thesis by blast
qed

text \<open>
  C2 as stated asks for a reason of its own for short texts. A text of two letters between
  spaces and a text of twenty equal letters, which is long enough and fails the repetition
  check, get the same answer.
\<close>

theorem too_short_reason_counterexample:
  "length (str_strip latin1_tables (py_str ''   hi      '')) < 10
   \<and> \<not> length (str_strip latin1_tables (py_str ''aaaaaaaaaaaaaaaaaaaa'')) < 10
   \<and> repeated_char (py_str ''aaaaaaaaaaaaaaaaaaaa'') (py_str ''aaaaaaaaaaaaaaaaaaaa'')
   \<and> create_story latin1_tables (\<lambda>t. False) 0 (sample_submission (py_str ''   hi      '')) []
     = Inl (HTTPException 400
         ''Your submission doesn't look like a real story. Please try again.'')
   \<and> create_story latin1_tables (\<lambda>t. False) 0 (sample_submission (py_str ''aaaaaaaaaaaaaaaaaaaa'')) []
     = Inl (HTTPException 400
         ''Your submission doesn't look like a real story. Please try again.'')"
proof -
  have 1: "length (str_strip latin1_tables (py_str ''   hi      '')) < 10"
    by (simp add: strip_short) (simp add: py_str_def)
  have 2: "\<not> length (str_strip latin1_tables (py_str ''aaaaaaaaaaaaaaaaaaaa'')) < 10"
    by (simp add: strip_spam) (simp add: py_str_def)
  have 3: "\<not> is_legitimate_story latin1_tables (py_str ''   hi      '')"
    using 1 by (rule short_not_legit)
  have 4: "\<not> is_legitimate_story latin1_tables (py_str ''aaaaaaaaaaaaaaaaaaaa'')"
    using 2 spam_repeated by (simp add: is_legitimate_story_def)
  have 5: "create_story latin1_tables (\<lambda>t. False) 0 (sample_submission (py_str ''   hi      '')) []
     = Inl (HTTPException 400
         ''Your submission doesn't look like a real story. Please try again.'')"
    using 3 by (simp add: create_story_cases[OF joy_allowed]) (simp add: sample_submission_def)
  have 6: "create_story latin1_tables (\<lambda>t. False) 0 (sample_submission (py_str ''aaaaaaaaaaaaaaaaaaaa'')) []
     = Inl (HTTPException 400
         ''Your submission doesn't look like a real story. Please try again.'')"
    using 4 by (simp add: create_story_cases[OF joy_allowed]) (simp add: sample_submission_def)
  from 1 2 spam_repeated 5 6 show ?thesis by blast
qed

text \<open>
  C3. A submission with an allowed category whose text the profanity filter flags is
  refused with the profanity message, whatever the length and legitimacy checks would
  say of the text: the profanity check comes before \<open>is_legitimate_story\<close>.
\<close>

theorem profanity_takes_precedence:
  assumes "category story \<in> set ALLOWED_CATEGORIES" and "P (story_text story)"
  shows "create_story U P now story db =
     Inl (HTTPException 400
       ''Your story contains inappropriate language. Please revise and resubmit.'')"
  using assms by (simp add: create_story_def)

theorem profanity_takes_precedence_witness:
  "category (sample_submission (py_str ''hi'')) \<in> set ALLOWED_CATEGORIES
   \<and> (\<lambda>t. t = py_str ''hi'') (story_text (sample_submission (py_str ''hi'')))
   \<and> \<not> is_legitimate_story latin1_tables (py_str ''hi'')
   \<and> create_story latin1_tables (\<lambda>t. t = py_str ''hi'') 0 (sample_submission (py_str ''hi'')) [] =
     Inl (HTTPException 400
       ''Your story contains inappropriate language. Please revise and resubmit.'')"
proof -
  have c: "category (sample_submission (py_str ''hi'')) \<in> set ALLOWED_CATEGORIES"
    by (rule joy_allowed)
  have p: "(\<lambda>t. t = py_str ''hi'') (story_text (sample_submission (py_str ''hi'')))"
    by (simp add: sample_submission_def)
  have s: "\<not> is_legitimate_story latin1_tables (py_str ''hi'')"
    by (rule short_not_legit) (simp add: strip_hi, simp add: py_str_def)
  from c p s profanity_takes_precedence[OF c, of "\<lambda>t. t = py_str ''hi''", OF p, of latin1_tables 0 "[]"]
  show ?thesis by blast
qed

text \<open>
  C4. The thresholds are strict. For a clean submission with an allowed category and a
  stripped length of at least 10 (and fewer than \<open>2^52\<close> characters): a count that is
  exactly three tenths of the length is not greater than the double \<open>len(text) * 0.3\<close>;
  a text with a character at exactly 30%, no character above 30%, symbols at most 20% and
  gibberish words at most 30% is stored; and a rejection means that one of the three
  ratios is strictly above its threshold.
\<close>

theorem thresholds_are_strict:
  assumes cat: "category story \<in> set ALLOWED_CATEGORIES"
    and clean: "\<not> P (story_text story)"
    and n: "length (story_text story) < 2 ^ 52"
    and len: "10 \<le> length (str_strip U (story_text story))"
  shows "(10 * k = 3 * length (story_text story) \<longrightarrow>
            \<not> int_gt_float k (int_times_float (length (story_text story)) literal_0_3))
     \<and> (c \<in> set (story_text story)
          \<and> 10 * str_count (story_text story) c = 3 * length (story_text story)
          \<and> (\<forall>d \<in> set (story_text story).
                10 * str_count (story_text story) d \<le> 3 * length (story_text story))
          \<and> 5 * non_alpha U (story_text story) \<le> length (story_text story)
          \<and> 10 * gibberish_loop U (str_split U (story_text story)) 0
              \<le> 3 * length (str_split U (story_text story))
        \<longrightarrow> (\<exists>res. create_story U P now story db = Inr res))
     \<and> ((\<exists>e. create_story U P now story db = Inl e) \<longrightarrow>
          (\<exists>d \<in> set (story_text story).
             3 * length (story_text story) < 10 * str_count (story_text story) d)
          \<or> length (story_text story) < 5 * non_alpha U (story_text story)
          \<or> 3 * length (str_split U (story_text story))
              < 10 * gibberish_loop U (str_split U (story_text story)) 0)"
proof -
  let ?t = "story_text story"
  have g: "gibberish_loop U (str_split U ?t) 0
      = length (filter (spec_gibberish_word U) (str_split U ?t))"
    by (simp add: gibberish_loop_eq)
  have A: "(\<exists>res. create_story U P now story db = Inr res) \<longleftrightarrow> is_legitimate_story U ?t"
    unfolding create_story_cases[OF cat] using clean by simp
  have B: "(\<exists>e. create_story U P now story db = Inl e) \<longleftrightarrow> \<not> is_legitimate_story U ?t"
    unfolding create_story_cases[OF cat] using clean by simp
  have 1: "10 * k = 3 * length ?t \<longrightarrow>
            \<not> int_gt_float k (int_times_float (length ?t) literal_0_3)"
    unfolding gt_0_3[OF n] by simp
  have 2: "c \<in> set ?t \<and> 10 * str_count ?t c = 3 * length ?t
          \<and> (\<forall>d \<in> set ?t. 10 * str_count ?t d \<le> 3 * length ?t)
          \<and> 5 * non_alpha U ?t \<le> length ?t
          \<and> 10 * gibberish_loop U (str_split U ?t) 0 \<le> 3 * length (str_split U ?t)
        \<longrightarrow> (\<exists>res. create_story U P now story db = Inr res)"
    unfolding A legit_iff[OF n] g non_alpha_eq using len by simp
  have 3: "(\<exists>e. create_story U P now story db = Inl e) \<longrightarrow>
          (\<exists>d \<in> set ?t. 3 * length ?t < 10 * str_count ?t d)
          \<or> length ?t < 5 * non_alpha U ?t
          \<or> 3 * length (str_split U ?t) < 10 * gibberish_loop U (str_split U ?t) 0"
    unfolding B legit_iff[OF n] g non_alpha_eq using len by (auto simp: not_le)
  from 1 2 3 show ?thesis by (intro conjI)
qed

theorem thresholds_are_strict_witness:
  "category (sample_submission (py_str ''aaabcdefgh'')) \<in> set ALLOWED_CATEGORIES
   \<and> \<not> (\<lambda>t. False) (story_text (sample_submission (py_str ''aaabcdefgh'')))
   \<and> length (story_text (sample_submission (py_str ''aaabcdefgh''))) < 2 ^ 52
   \<and> 10 \<le> length (str_strip latin1_tables (story_text (sample_submission (py_str ''aaabcdefgh''))))
   \<and> 97 \<in> set (py_str ''aaabcdefgh'')
   \<and> 10 * str_count (py_str ''aaabcdefgh'') 97 = 3 * length (py_str ''aaabcdefgh'')
   \<and> \<not> int_gt_float 3 (int_times_float 10 literal_0_3)
   \<and> (\<exists>res. create_story latin1_tables (\<lambda>t. False) 0
          (sample_submission (py_str ''aaabcdefgh'')) [] = Inr res)
   \<and> category (sample_submission (py_str ''aaaabcdefg'')) \<in> set ALLOWED_CATEGORIES
   \<and> length (story_text (sample_submission (py_str ''aaaabcdefg''))) < 2 ^ 52
   \<and> 10 \<le> length (str_strip latin1_tables (story_text (sample_submission (py_str ''aaaabcdefg''))))
   \<and> (\<exists>e. create_story latin1_tables (\<lambda>t. False) 0
          (sample_submission (py_str ''aaaabcdefg'')) [] = Inl e)
   \<and> ((\<exists>d \<in> set (py_str ''aaaabcdefg'').
          3 * length (py_str ''aaaabcdefg'') < 10 * str_count (py_str ''aaaabcdefg'') d)
        \<or> length (py_str ''aaaabcdefg'') < 5 * non_alpha latin1_tables (py_str ''aaaabcdefg'')
        \<or> 3 * length (str_split latin1_tables (py_str ''aaaabcdefg''))
            < 10 * gibberish_loop latin1_tables (str_split latin1_tables (py_str ''aaaabcdefg'')) 0)"
proof -
  let ?b = "sample_submission (py_str ''aaabcdefgh'')"
  let ?o = "sample_submission (py_str ''aaaabcdefg'')"
  have tb: "story_text ?b = py_str ''aaabcdefgh''" by (simp add: sample_submission_def)
  have to: "story_text ?o = py_str ''aaaabcdefg''" by (simp add: sample_submission_def)
  have c1: "category ?b \<in> set ALLOWED_CATEGORIES" by (rule joy_allowed)
  have c2: "category ?o \<in> set ALLOWED_CATEGORIES" by (rule joy_allowed)
  have p1: "\<not> (\<lambda>t. False) (story_text ?b)" by simp
  have p2: "\<not> (\<lambda>t. False) (story_text ?o)" by simp
  have n1: "length (story_text ?b) < 2 ^ 52" by (simp add: tb) (simp add: py_str_def)
  have n2: "length (story_text ?o) < 2 ^ 52" by (simp add: to) (simp add: py_str_def)
  have l1: "10 \<le> length (str_strip latin1_tables (story_text ?b))"
    by (simp add: tb) (simp add: py_str_def str_strip_def isspace_def)
  have l2: "10 \<le> length (str_strip latin1_tables (story_text ?o))"
    by (simp add: to) (simp add: py_str_def str_strip_def isspace_def)
  have m: "97 \<in> set (py_str ''aaabcdefgh'')" by (simp add: py_str_def)
  have lb: "length (py_str ''aaabcdefgh'') = 10" by (simp add: py_str_def)
  have k: "10 * (3::nat) = 3 * length (story_text ?b)" by (simp add: tb lb)
  have e1: "(\<forall>d \<in> set (py_str ''aaabcdefgh'').
                10 * str_count (py_str ''aaabcdefgh'') d \<le> 3 * length (py_str ''aaabcdefgh''))"
    by (simp add: py_str_def str_count_def)
  have e2: "5 * non_alpha latin1_tables (py_str ''aaabcdefgh'') \<le> length (py_str ''aaabcdefgh'')"
    by (simp add: py_str_def non_alpha_def isalnum_defs)
  have e3: "10 * gibberish_loop latin1_tables (str_split latin1_tables (py_str ''aaabcdefgh'')) 0
              \<le> 3 * length (str_split latin1_tables (py_str ''aaabcdefgh''))"
    by (simp add: py_str_def str_split_def isspace_def vowels_def str_lower_def)
  note T1 = thresholds_are_strict[OF c1 p1 n1 l1, of 3 97 0 "[]", unfolded tb]
  note T2 = thresholds_are_strict[OF c2 p2 n2 l2, of 0 0 0 "[]", unfolded to]
  have r0: "\<not> int_gt_float 3 (int_times_float 10 literal_0_3)"
    using T1 k by (simp add: tb lb)
  have r1: "\<exists>res. create_story latin1_tables (\<lambda>t. False) 0 ?b [] = Inr res"
    using T1 m boundary_counts e1 e2 e3 by blast
  have nl: "\<not> is_legitimate_story latin1_tables (py_str ''aaaabcdefg'')"
    using n2 by (simp add: to legit_first_failing over_first_failing)
  have r2: "\<exists>e. create_story latin1_tables (\<lambda>t. False) 0 ?o [] = Inl e"
    using nl by (simp add: create_story_cases[OF c2] to)
  have r3: "(\<exists>d \<in> set (py_str ''aaaabcdefg'').
          3 * length (py_str ''aaaabcdefg'') < 10 * str_count (py_str ''aaaabcdefg'') d)
        \<or> length (py_str ''aaaabcdefg'') < 5 * non_alpha latin1_tables (py_str ''aaaabcdefg'')
        \<or> 3 * length (str_split latin1_tables (py_str ''aaaabcdefg''))
            < 10 * gibberish_loop latin1_tables (str_split latin1_tables (py_str ''aaaabcdefg'')) 0"
    using T2 r2 by blast
  from c1 p1 n1 l1 m boundary_counts r0 r1 c2 n2 l2 r2 r3 show ?thesis by blast
qed

text \<open>
  C5. The text \<open>!!!!###@@@$$$%%%^^^&&&\<close> has 22 characters, none alphanumeric, and is
  long enough. No character occurs more than \<open>22 * 0.3\<close> times, so the repetition check
  passes; 18 characters are neither alphanumeric nor permitted punctuation (the four
  exclamation marks are permitted), and 18 is greater than the double \<open>22 * 0.2\<close>. A
  clean submission of this text with an allowed category is refused with the message of
  \<open>is_legitimate_story\<close>.
\<close>

theorem symbol_spam_rejected:
  assumes cat: "category story \<in> set ALLOWED_CATEGORIES"
    and clean: "\<not> P (story_text story)"
    and t: "story_text story = py_str ''!!!!###@@@$$$%%%^^^&&&''"
  shows "length (story_text story) = 22
     \<and> \<not> list_ex (isalnum U) (story_text story)
     \<and> 10 \<le> length (str_strip U (story_text story))
     \<and> \<not> repeated_char (story_text story) (story_text story)
     \<and> non_alpha U (story_text story) = 18
     \<and> int_gt_float 18 (int_times_float 22 literal_0_2)
     \<and> create_story U P now story db =
         Inl (HTTPException 400
           ''Your submission doesn't look like a real story. Please try again.'')"
proof -
  let ?t = "py_str ''!!!!###@@@$$$%%%^^^&&&''"
  have 1: "length ?t = 22" by (simp add: py_str_def)
  have 2: "\<not> list_ex (isalnum U) ?t" by (simp add: py_str_def isalnum_defs)
  have 3: "10 \<le> length (str_strip U ?t)" by (simp add: py_str_def str_strip_def isspace_def)
  have n: "length ?t < 2 ^ 52" by (simp add: 1)
  have 4: "\<not> repeated_char ?t ?t"
    unfolding repeated_char_iff gt_0_3[OF n] by (simp add: py_str_def str_count_def)
  have 5: "non_alpha U ?t = 18"
    by (simp add: py_str_def non_alpha_def isalnum_defs permitted_punctuation_def)
  have 6: "int_gt_float 18 (int_times_float 22 literal_0_2)"
    by (simp add: gt_0_2)
  have "int_gt_float (non_alpha U ?t) (int_times_float (length ?t) literal_0_2)"
    using 6 by (simp add: 1 5)
  then have 7: "\<not> is_legitimate_story U ?t" by (simp add: is_legitimate_story_def)
  have 8: "create_story U P now story db =
         Inl (HTTPException 400
           ''Your submission doesn't look like a real story. Please try again.'')"
    unfolding create_story_cases[OF cat] using clean 7 by (simp add: t)
  from 1 2 3 4 5 6 8 show ?thesis unfolding t by (intro conjI)
qed

theorem symbol_spam_rejected_witness:
  "category (sample_submission (py_str ''!!!!###@@@$$$%%%^^^&&&'')) \<in> set ALLOWED_CATEGORIES
   \<and> \<not> (\<lambda>t. False) (story_text (sample_submission (py_str ''!!!!###@@@$$$%%%^^^&&&'')))
   \<and> story_text (sample_submission (py_str ''!!!!###@@@$$$%%%^^^&&&''))
       = py_str ''!!!!###@@@$$$%%%^^^&&&''
   \<and> create_story latin1_tables (\<lambda>t. False) 0
        (sample_submission (py_str ''!!!!###@@@$$$%%%^^^&&&'')) [] =
         Inl (HTTPException 400
           ''Your submission doesn't look like a real story. Please try again.'')"
proof -
  let ?s = "sample_submission (py_str ''!!!!###@@@$$$%%%^^^&&&'')"
  have c: "category ?s \<in> set ALLOWED_CATEGORIES" by (rule joy_allowed)
  have p: "\<not> (\<lambda>t. False) (story_text ?s)" by simp
  have t: "story_text ?s = py_str ''!!!!###@@@$$$%%%^^^&&&''" by (simp add: sample_submission_def)
  from c p t symbol_spam_rejected[OF c p t, of latin1_tables 0 "[]"]
  show ?thesis by blast
qed

section \<open>Texts without words and texts beyond ASCII\<close>

text \<open>
  C8. A text that splits into no word consists of white space only: stripping leaves
  nothing, so the length check refuses it before the word loop is reached. The word
  check itself divides nothing: with no words the count 0 is compared with the double
  \<open>0 * 0.3 = 0.0\<close> and is not greater.
\<close>

theorem zero_words_guarded:
  assumes "str_split U text = []"
  shows "str_strip U text = []
     \<and> length (str_strip U text) < 10
     \<and> \<not> is_legitimate_story U text
     \<and> gibberish_loop U (str_split U text) 0 = 0
     \<and> int_times_float (length (str_split U text)) literal_0_3 = 0
     \<and> \<not> int_gt_float (gibberish_loop U (str_split U text) 0)
            (int_times_float (length (str_split U text)) literal_0_3)"
proof -
  have ws: "\<forall>c \<in> set text. isspace U c"
    using assms by (simp add: str_split_def split_scan_empty_iff)
  then have d: "dropWhile (isspace U) text = []" by (simp only: dropWhile_eq_Nil_conv)
  have s: "str_strip U text = []" unfolding str_strip_def d by simp
  then have "\<not> is_legitimate_story U text" by (simp add: short_not_legit)
  with s show ?thesis
    by (simp add: assms int_times_float_0 int_gt_float_def)
qed

theorem zero_words_guarded_witness:
  "str_split latin1_tables (py_str ''            '') = []
   \<and> 10 \<le> length (py_str ''            '')
   \<and> length (str_strip latin1_tables (py_str ''            '')) < 10
   \<and> \<not> is_legitimate_story latin1_tables (py_str ''            '')
   \<and> \<not> int_gt_float (gibberish_loop latin1_tables (str_split latin1_tables (py_str ''            '')) 0)
            (int_times_float (length (str_split latin1_tables (py_str ''            ''))) literal_0_3)"
proof -
  have e: "str_split latin1_tables (py_str ''            '') = []"
    by (simp add: str_split_def py_str_def isspace_def)
  have l: "10 \<le> length (py_str ''            '')" by (simp add: py_str_def)
  from e l zero_words_guarded[OF e] show ?thesis by blast
qed



section \<open>Moderation\<close>

text \<open>
  C7. A story that \<open>create_story\<close> stores is appended as a row with \<open>approved = False\<close>
  under a fresh id. After any history of submissions, approvals and deletions that does
  not approve that id, the story is pending: \<open>get_story\<close> answers 404 for it and neither
  the list nor the random endpoint returns it. Approving it makes \<open>get_story\<close> return
  the row with \<open>approved = True\<close>. On every table the three public reads return approved
  rows only.
\<close>

theorem unapproved_until_approved:
  assumes sub: "create_story U P now story db = Inr (db1, i, m)"
    and none: "\<not> list_ex (approves i) reqs"
  shows "(\<exists>row. db1 = db @ [row] \<and> story_id row = i \<and> \<not> approved row
            \<and> get_story i (handle U P (Approve i t) db1)
                = Inr (row\<lparr>approved := True, updated_at := t\<rparr>))
     \<and> pending i (run U P reqs db1)
     \<and> get_story i (run U P reqs db1) = Inl (HTTPException 404 ''Story not found'')
     \<and> (\<forall>cat ss. get_public_stories cat (run U P reqs db1) = Inr ss
            \<longrightarrow> i \<notin> story_id ` set ss)
     \<and> (\<forall>r s. get_random_story r (run U P reqs db1) = Inr s \<longrightarrow> story_id s \<noteq> i)
     \<and> (\<forall>cat ss. get_public_stories cat tbl = Inr ss \<longrightarrow> (\<forall>s \<in> set ss. approved s))
     \<and> (\<forall>sid s. get_story sid tbl = Inr s \<longrightarrow> approved s)
     \<and> (\<forall>r s. get_random_story r tbl = Inr s \<longrightarrow> approved s)"
proof -
  let ?row = "\<lparr>title = title story, author_name = author_name story,
                author_email = author_email story, story_text = story_text story,
                category = category story, story_id = assign_id db,
                approved = False, created_at = now, updated_at = now\<rparr>"
  from create_story_Inr[OF sub] have i: "i = assign_id db" and db1: "db1 = db @ [?row]"
    by simp_all
  have fresh: "\<forall>s \<in> set db. story_id s \<noteq> story_id ?row"
    using assign_id_fresh[of _ db] by fastforce
  have vis: "get_story i (handle U P (Approve i t) db1)
      = Inr (?row\<lparr>approved := True, updated_at := t\<rparr>)"
    using approve_new_row[OF fresh, of U P t] unfolding db1 i by simp
  have 1: "\<exists>row. db1 = db @ [row] \<and> story_id row = i \<and> \<not> approved row
            \<and> get_story i (handle U P (Approve i t) db1)
                = Inr (row\<lparr>approved := True, updated_at := t\<rparr>)"
    using db1 i vis by (intro exI[of _ ?row]) simp
  have p0: "pending i db1"
    using fresh unfolding pending_def db1 i by auto
  have p: "pending i (run U P reqs db1)" using p0 none by (rule run_pending)
  then have hid: "\<forall>s \<in> set (run U P reqs db1). story_id s = i \<longrightarrow> \<not> approved s"
    by (simp add: pending_def)
  have 3: "get_story i (run U P reqs db1) = Inl (HTTPException 404 ''Story not found'')"
    using hid by (rule get_story_hidden)
  have 4: "\<forall>cat ss. get_public_stories cat (run U P reqs db1) = Inr ss
            \<longrightarrow> i \<notin> story_id ` set ss"
    using get_public_stories_approved hid by blast
  have 5: "\<forall>r s. get_random_story r (run U P reqs db1) = Inr s \<longrightarrow> story_id s \<noteq> i"
    using get_random_story_approved hid by blast
  have 6: "\<forall>cat ss. get_public_stories cat tbl = Inr ss \<longrightarrow> (\<forall>s \<in> set ss. approved s)"
    using get_public_stories_approved by blast
  have 7: "\<forall>sid s. get_story sid tbl = Inr s \<longrightarrow> approved s"
    using get_story_approved by blast
  have 8: "\<forall>r s. get_random_story r tbl = Inr s \<longrightarrow> approved s"
    using get_random_story_approved by blast
  from 1 p 3 4 5 6 7 8 show ?thesis by (intro conjI)
qed

theorem unapproved_until_approved_witness:
  "create_story latin1_tables (\<lambda>t. False) 0
     (sample_submission
        (py_str ''Today I learned something important about my family and our past.'')) []
   = Inr ([\<lparr>title = None, author_name = None, author_email = None,
            story_text = py_str ''Today I learned something important about my family and our past.'',
            category = py_str ''Joy'', story_id = 1, approved = False,
            created_at = 0, updated_at = 0\<rparr>], 1, ''Story submitted for review'')
   \<and> \<not> list_ex (approves 1)
         [Submit (sample_submission (py_str ''Xqzvbnmfjhpl xqzvbnmfjhpl xqzvbnmfjhpl'')) 3,
          Approve 5 4, Reject 9]
   \<and> pending 1 (run latin1_tables (\<lambda>t. False)
         [Submit (sample_submission (py_str ''Xqzvbnmfjhpl xqzvbnmfjhpl xqzvbnmfjhpl'')) 3,
          Approve 5 4, Reject 9]
         [\<lparr>title = None, author_name = None, author_email = None,
            story_text = py_str ''Today I learned something important about my family and our past.'',
            category = py_str ''Joy'', story_id = 1, approved = False,
            created_at = 0, updated_at = 0\<rparr>])
   \<and> get_story 1 (run latin1_tables (\<lambda>t. False)
         [Submit (sample_submission (py_str ''Xqzvbnmfjhpl xqzvbnmfjhpl xqzvbnmfjhpl'')) 3,
          Approve 5 4, Reject 9]
         [\<lparr>title = None, author_name = None, author_email = None,
            story_text = py_str ''Today I learned something important about my family and our past.'',
            category = py_str ''Joy'', story_id = 1, approved = False,
            created_at = 0, updated_at = 0\<rparr>])
       = Inl (HTTPException 404 ''Story not found'')"
proof -
  let ?reqs = "[Submit (sample_submission (py_str ''Xqzvbnmfjhpl xqzvbnmfjhpl xqzvbnmfjhpl'')) 3,
          Approve 5 4, Reject 9]"
  have n: "\<not> list_ex (approves 1) ?reqs" by simp
  from good_created[of latin1_tables] n
    unapproved_until_approved[OF good_created[of latin1_tables] n, of 0 "[]"]
  show ?thesis by blast
qed

text \<open>
  C9. Approving an existing id succeeds and rewrites the table row by row: a row with
  that id gets \<open>approved = True\<close> and \<open>updated_at = now\<close>, every other row is unchanged,
  and in every row the id, title, author name, author email, text, category and creation
  time are as before.
\<close>

theorem approve_story_frame:
  assumes "sid \<in> story_id ` set db"
  shows "\<exists>db'. approve_story sid now db = Inr (db', ''Story approved'')
     \<and> length db' = length db
     \<and> (\<forall>k < length db.
          (story_id (db ! k) = sid \<longrightarrow>
             db' ! k = (db ! k)\<lparr>approved := True, updated_at := now\<rparr>)
        \<and> (story_id (db ! k) \<noteq> sid \<longrightarrow> db' ! k = db ! k)
        \<and> story_id (db' ! k) = story_id (db ! k)
        \<and> title (db' ! k) = title (db ! k)
        \<and> author_name (db' ! k) = author_name (db ! k)
        \<and> author_email (db' ! k) = author_email (db ! k)
        \<and> story_text (db' ! k) = story_text (db ! k)
        \<and> category (db' ! k) = category (db ! k)
        \<and> created_at (db' ! k) = created_at (db ! k))"
proof -
  let ?db' = "map (\<lambda>s. if story_id s = sid then s\<lparr>approved := True, updated_at := now\<rparr> else s) db"
  have "approve_story sid now db = Inr (?db', ''Story approved'')"
    using assms by (rule approve_story_exists)
  then show ?thesis by (intro exI[of _ ?db']) simp
qed

theorem approve_story_frame_witness:
  "2 \<in> story_id ` set sample_table
   \<and> (\<exists>db'. approve_story 2 30 sample_table = Inr (db', ''Story approved'')
        \<and> length db' = length sample_table
        \<and> db' ! 0 = sample_table ! 0
        \<and> db' ! 1 = (sample_table ! 1)\<lparr>approved := True, updated_at := 30\<rparr>)"
proof -
  have m: "2 \<in> story_id ` set sample_table" by (simp add: sample_table_def)
  have l: "length sample_table = 2" by (simp add: sample_table_def)
  have i0: "story_id (sample_table ! 0) \<noteq> 2" by (simp add: sample_table_def)
  have i1: "story_id (sample_table ! 1) = 2" by (simp add: sample_table_def)
  from approve_story_frame[OF m, of 30] obtain db' where
    a: "approve_story 2 30 sample_table = Inr (db', ''Story approved'')"
    and b: "length db' = length sample_table"
    and c: "\<forall>k < length sample_table.
          (story_id (sample_table ! k) = 2 \<longrightarrow>
             db' ! k = (sample_table ! k)\<lparr>approved := True, updated_at := 30\<rparr>)
        \<and> (story_id (sample_table ! k) \<noteq> 2 \<longrightarrow> db' ! k = sample_table ! k)"
    by blast
  from c l i0 have d0: "db' ! 0 = sample_table ! 0" by simp
  from c l i1 have d1: "db' ! 1 = (sample_table ! 1)\<lparr>approved := True, updated_at := 30\<rparr>"
    by simp
  from m a b d0 d1 show ?thesis by blast
qed

end
